theory Spec2Isabelle
  imports Complex_Main
begin

section \<open>Book constants and content (main.js, lines 7-88)\<close>

definition PAGE_WIDTH :: real where
  "PAGE_WIDTH = 1.28"

definition PAGE_HEIGHT :: real where
  "PAGE_HEIGHT = 1.71"

definition PAGE_DEPTH :: real where
  "PAGE_DEPTH = 0.003"

definition PAGE_SEGMENTS :: nat where
  "PAGE_SEGMENTS = 30"

definition SEGMENT_WIDTH :: real where
  "SEGMENT_WIDTH = PAGE_WIDTH / real PAGE_SEGMENTS"

definition EASING_FACTOR :: real where
  "EASING_FACTOR = 0.5"

definition EASING_FACTOR_FOLD :: real where
  "EASING_FACTOR_FOLD = 0.3"

definition INSIDE_CURVE_STRENGTH :: real where
  "INSIDE_CURVE_STRENGTH = 0.18"

definition OUTSIDE_CURVE_STRENGTH :: real where
  "OUTSIDE_CURVE_STRENGTH = 0.05"

definition TURNING_CURVE_STRENGTH :: real where
  "TURNING_CURVE_STRENGTH = 0.09"

record pageData =
  front :: string
  back' :: string
  content :: string

text \<open>The book of the source: thirteen entries, the first and the last being the covers.\<close>

definition pages :: "pageData list" where
  "pages =
    [\<lparr>front = ''cover'', back' = ''page1'',
        content = ''This is the cover of our amazing book.''\<rparr>,
     \<lparr>front = ''page1'', back' = ''page2'',
        content = ''Once upon a time in a land far away, there lived a curious explorer who loved to discover new places.''\<rparr>,
     \<lparr>front = ''page2'', back' = ''page3'',
        content = ''The explorer had a magical map that would reveal hidden treasures and mysterious locations.''\<rparr>,
     \<lparr>front = ''page3'', back' = ''page4'',
        content = ''One day, while studying the map, a strange symbol appeared that the explorer had never seen before.''\<rparr>,
     \<lparr>front = ''page4'', back' = ''page5'',
        content = ''The symbol led to an ancient library filled with books containing the knowledge of forgotten civilizations.''\<rparr>,
     \<lparr>front = ''page5'', back' = ''page6'',
        content = ''In the library, the explorer found a book just like this one, which told stories of other explorers.''\<rparr>,
     \<lparr>front = ''page6'', back' = ''page7'',
        content = ''Each explorer had discovered something unique that changed the world in some small but significant way.''\<rparr>,
     \<lparr>front = ''page7'', back' = ''page8'',
        content = ''The book revealed that the greatest treasures were not gold or jewels, but knowledge and understanding.''\<rparr>,
     \<lparr>front = ''page8'', back' = ''page9'',
        content = ''Inspired by these stories, our explorer decided to share all discoveries with the world.''\<rparr>,
     \<lparr>front = ''page9'', back' = ''page10'',
        content = ''And so began a new journey of sharing knowledge and inspiring future generations of explorers.''\<rparr>,
     \<lparr>front = ''page10'', back' = ''page11'',
        content = ''The explorer created schools and libraries where people could learn about the wonders of the world.''\<rparr>,
     \<lparr>front = ''page11'', back' = ''page12'',
        content = ''Students from all over came to learn, and many became explorers themselves, continuing the cycle.''\<rparr>,
     \<lparr>front = ''page12'', back' = ''backcover'',
        content = ''And that is how a single discovery can change the world. The End.''\<rparr>]"

text \<open>
  Every operation below reads the book only through \<open>pages.length\<close>. The operations take
  that length as their first argument \<open>N\<close>; for the book of the source it is
  \<open>length pages\<close>, that is 13.
\<close>

section \<open>Page objects (createPage, lines 300-476)\<close>

text \<open>
  A bone of the skeleton: its local rotation about the y and the x axis. The numbers of
  the source are IEEE doubles. The model rounds as the source does where it computes
  the turning time (lines 408-409); the easing of the rotations and the curve terms
  are computed over the real numbers.
\<close>

record bone =
  rotation_y :: real
  rotation_x :: real
  position_x :: real

text \<open>
  The page object of \<open>createPage\<close>: the fields of the object literal, the bones of the
  skeleton, and the parts of the mesh that \<open>update\<close> writes (the emissive intensity of
  the front and back materials, the z position).
\<close>

record pageObject =
  index :: nat
  bones :: "bone list"
  emissiveIntensity4 :: real
  emissiveIntensity5 :: real
  position_z :: real
  highlighted :: bool
  turnedAt :: int
  lastOpened :: bool

definition newBone :: "nat \<Rightarrow> bone" where
  "newBone i =
     \<lparr>rotation_y = 0, rotation_x = 0,
      position_x = (if i = 0 then 0 else SEGMENT_WIDTH)\<rparr>"

text \<open>The loop \<open>for (let i = 0; i <= PAGE_SEGMENTS; i++) bones.push(bone)\<close>.\<close>

function createBones :: "nat \<Rightarrow> bone list \<Rightarrow> bone list" where
  "createBones i bs =
     (if i \<le> PAGE_SEGMENTS then createBones (i + 1) (bs @ [newBone i]) else bs)"
  by pat_completeness auto
termination
  by (relation "measure (\<lambda>(i, bs). PAGE_SEGMENTS + 1 - i)") auto

declare createBones.simps [simp del]

definition createPage :: "nat \<Rightarrow> pageObject" where
  "createPage idx =
     \<lparr>index = idx, bones = createBones 0 [],
      emissiveIntensity4 = 0, emissiveIntensity5 = 0, position_z = 0,
      highlighted = False, turnedAt = 0, lastOpened = False\<rparr>"

definition setHighlighted :: "bool \<Rightarrow> pageObject \<Rightarrow> pageObject" where
  "setHighlighted v p = p\<lparr>highlighted := v\<rparr>"

subsection \<open>The per-frame update of a page (lines 388-456)\<close>

text \<open>\<open>THREE.MathUtils.lerp\<close> and \<open>degToRad\<close>, as three.js defines them.\<close>

definition lerp :: "real \<Rightarrow> real \<Rightarrow> real \<Rightarrow> real" where
  "lerp x y t = (1 - t) * x + t * y"

definition degToRad :: "real \<Rightarrow> real" where
  "degToRad degrees = degrees * (pi / 180)"

paragraph \<open>IEEE doubles: rounding, \<open>Math.PI\<close> and \<open>Math.sin\<close>\<close>

text \<open>
  Rounding to the nearest double, ties to even, for the normal range of magnitudes
  (from \<open>2 ^ (-1022)\<close> up to \<open>2 ^ 1024\<close>): a double there has a significand of 53 bits, so the
  doubles around \<open>x\<close> are the multiples of \<open>ulp x\<close>.
\<close>

definition roundTiesToEven :: "real \<Rightarrow> int" where
  "roundTiesToEven r =
     (let f = \<lfloor>r\<rfloor> in
      if r - of_int f < 1 / 2 then f
      else if r - of_int f > 1 / 2 then f + 1
      else if even f then f else f + 1)"

definition ulp :: "real \<Rightarrow> real" where
  "ulp x = 2 powr (real_of_int \<lfloor>log 2 \<bar>x\<bar>\<rfloor> - 52)"

definition roundDouble :: "real \<Rightarrow> real" where
  "roundDouble x =
     (if x = 0 then 0 else real_of_int (roundTiesToEven (x / ulp x)) * ulp x)"

text \<open>
  \<open>Math.PI\<close> is the double nearest to \<open>\<pi>\<close>, \<open>0x400921FB54442D18\<close>, that is
  \<open>7074237752028440 / 2 ^ 51\<close>. \<open>Math.sin\<close> is the library's: it is modelled as the sine
  rounded to the nearest double, which at the three arguments the envelope meets on
  its boundary gives \<open>Math.sin(0) = 0\<close>, \<open>Math.sin(Math.PI / 2) = 1\<close> and
  \<open>Math.sin(Math.PI) = 1.2246467991473532e-16\<close>.
\<close>

definition Math_PI :: real where
  "Math_PI = 884279719003555 / 281474976710656"

definition Math_sin :: "real \<Rightarrow> real" where
  "Math_sin x = roundDouble (sin x)"

text \<open>
  Lines 408-409. \<open>now\<close> is the reading of \<open>Date.now()\<close> (integer milliseconds) on line
  408; the difference and \<open>Math.min\<close> are exact, the division, the product and the sine
  are rounded. Only the upper bound 400 is applied to the elapsed time.
\<close>

definition turningPhase :: "int \<Rightarrow> int \<Rightarrow> real" where
  "turningPhase now tAt = roundDouble (min 400 (real_of_int (now - tAt)) / 400)"

definition turningTime :: "int \<Rightarrow> int \<Rightarrow> real" where
  "turningTime now tAt = Math_sin (roundDouble (turningPhase now tAt * Math_PI))"

text \<open>Lines 411-414.\<close>

definition targetRotation :: "bool \<Rightarrow> bool \<Rightarrow> nat \<Rightarrow> real" where
  "targetRotation opened bookClosed idx =
     (if opened then - pi / 2 else pi / 2) +
     (if \<not> bookClosed then degToRad (real idx * 0.8) else 0)"

text \<open>
  The body of the loop over the bones (lines 418-451): \<open>i\<close> is the bone's index,
  \<open>n\<close> is \<open>bones.length\<close>, \<open>tt\<close> the turning time and \<open>target\<close> the target rotation.
\<close>

definition insideCurveIntensity :: "nat \<Rightarrow> real" where
  "insideCurveIntensity i = (if i < 8 then sin (real i * 0.2 + 0.25) else 0)"

definition outsideCurveIntensity :: "nat \<Rightarrow> real" where
  "outsideCurveIntensity i = (if i \<ge> 8 then cos (real i * 0.3 + 0.09) else 0)"

definition turningIntensity :: "nat \<Rightarrow> nat \<Rightarrow> real \<Rightarrow> real" where
  "turningIntensity i n tt = sin (real i * pi * (1 / real n)) * tt"

text \<open>\<open>rotationAngle\<close> as lines 424-427 compute it, before the override of line 431.\<close>

definition rotationAngle :: "nat \<Rightarrow> nat \<Rightarrow> real \<Rightarrow> real \<Rightarrow> real" where
  "rotationAngle i n tt target =
     INSIDE_CURVE_STRENGTH * insideCurveIntensity i * target -
     OUTSIDE_CURVE_STRENGTH * outsideCurveIntensity i * target +
     TURNING_CURVE_STRENGTH * turningIntensity i n tt * target"

definition foldRotationAngle :: "real \<Rightarrow> real" where
  "foldRotationAngle target = degToRad (sin target * 2)"

text \<open>\<open>targetRotationY\<close> (line 443): \<open>rotationAngle\<close> after the override of lines 431-439.\<close>

definition targetRotationY :: "bool \<Rightarrow> nat \<Rightarrow> nat \<Rightarrow> real \<Rightarrow> real \<Rightarrow> real" where
  "targetRotationY bookClosed i n tt target =
     (if bookClosed then (if i = 0 then target else 0)
      else rotationAngle i n tt target)"

definition foldIntensity :: "nat \<Rightarrow> nat \<Rightarrow> real \<Rightarrow> real" where
  "foldIntensity i n tt =
     (if i > 8 then sin (real i * pi * (1 / real n) - 0.5) * tt else 0)"

text \<open>\<open>targetRotationX\<close> (line 450): the fold angle after the override, times the intensity.\<close>

definition targetRotationX :: "bool \<Rightarrow> nat \<Rightarrow> nat \<Rightarrow> real \<Rightarrow> real \<Rightarrow> real" where
  "targetRotationX bookClosed i n tt target =
     (if bookClosed then (if i = 0 then 0 else 0) else foldRotationAngle target) *
     foldIntensity i n tt"

definition updateBone :: "real \<Rightarrow> bool \<Rightarrow> nat \<Rightarrow> nat \<Rightarrow> real \<Rightarrow> real \<Rightarrow> bone \<Rightarrow> bone" where
  "updateBone delta bookClosed i n tt target b =
     b\<lparr>rotation_y := rotation_y b +
          (targetRotationY bookClosed i n tt target - rotation_y b) * EASING_FACTOR * delta,
       rotation_x := rotation_x b +
          (targetRotationX bookClosed i n tt target - rotation_x b) * EASING_FACTOR_FOLD * delta\<rparr>"

text \<open>The loop \<open>for (let i = 0; i < bones.length; i++)\<close>, writing bone \<open>i\<close> in place.\<close>

function updateBones :: "real \<Rightarrow> bool \<Rightarrow> real \<Rightarrow> real \<Rightarrow> nat \<Rightarrow> bone list \<Rightarrow> bone list" where
  "updateBones delta bookClosed tt target i bs =
     (if i < length bs
      then updateBones delta bookClosed tt target (i + 1)
             (bs[i := updateBone delta bookClosed i (length bs) tt target (bs ! i)])
      else bs)"
  by pat_completeness auto
termination
  by (relation "measure (\<lambda>(delta, bookClosed, tt, target, i, bs). length bs - i)") auto

declare updateBones.simps [simp del]

text \<open>
  \<open>update(delta, page, opened, bookClosed)\<close>. The two readings of \<open>Date.now()\<close> are
  arguments: \<open>now1\<close> is the one of line 404 (read only on a transition), \<open>now2\<close> the one
  of line 408.
\<close>

definition update ::
  "real \<Rightarrow> int \<Rightarrow> bool \<Rightarrow> bool \<Rightarrow> int \<Rightarrow> int \<Rightarrow> pageObject \<Rightarrow> pageObject" where
  "update delta page opened bookClosed now1 now2 p =
     (let emissiveIntensity = (if highlighted p then 0.22 else 0);
          p1 = p\<lparr>emissiveIntensity4 := lerp (emissiveIntensity4 p) emissiveIntensity 0.1,
                 emissiveIntensity5 := lerp (emissiveIntensity5 p) emissiveIntensity 0.1\<rparr>;
          p2 = (if lastOpened p1 \<noteq> opened
                then p1\<lparr>turnedAt := now1, lastOpened := opened\<rparr> else p1);
          tt = turningTime now2 (turnedAt p2);
          target = targetRotation opened bookClosed (index p2);
          p3 = p2\<lparr>bones := updateBones delta bookClosed tt target 0 (bones p2)\<rparr>
      in p3\<lparr>position_z := - real (index p3) * PAGE_DEPTH + real_of_int page * PAGE_DEPTH\<rparr>)"

section \<open>The session: cursor, timer, pages, hover and the UI (lines 90-101)\<close>

text \<open>
  The module's variables. \<open>animationTimeout\<close> is the pending timer of \<open>setTimeout\<close>, with
  its delay in milliseconds, or \<open>None\<close> when no timer is pending. \<open>hoveredObject\<close> is a
  reference to one of the objects of \<open>pageObjects\<close>: its position in that list.
\<close>

record session =
  currentPage :: int
  delayedPage :: int
  animationTimeout :: "nat option"
  pageObjects :: "pageObject list"
  hoveredObject :: "nat option"
  pageCounter :: string
  prevBtn_disabled :: bool
  nextBtn_disabled :: bool
  body_cursor :: string

subsection \<open>Numbers in a template string\<close>

definition digitChar :: "nat \<Rightarrow> char" where
  "digitChar d = ''0123456789'' ! d"

fun digits :: "nat \<Rightarrow> string" where
  "digits n = (if n < 10 then [digitChar n] else digits (n div 10) @ [digitChar (n mod 10)])"

declare digits.simps [simp del]

definition numberToString :: "int \<Rightarrow> string" where
  "numberToString k = (if k < 0 then ''-'' @ digits (nat (- k)) else digits (nat k))"

subsection \<open>updateUI, setPage and the catch-up of the delayed page (lines 512-560)\<close>

definition updateUI :: "nat \<Rightarrow> session \<Rightarrow> session" where
  "updateUI N s =
     s\<lparr>pageCounter := ''Page '' @ numberToString (currentPage s) @ '' of '' @
                        numberToString (int N - 1),
       prevBtn_disabled := (currentPage s \<le> 0),
       nextBtn_disabled := (currentPage s \<ge> int N - 1)\<rparr>"

text \<open>The constant \<open>delay\<close> of line 537, from the distance before the move.\<close>

definition stepDelay :: "session \<Rightarrow> nat" where
  "stepDelay s = (if \<bar>currentPage s - delayedPage s\<bar> > 2 then 50 else 150)"

text \<open>The closure \<open>goToPage\<close> (lines 532-550): one step of the catch-up.\<close>

definition goToPage :: "nat \<Rightarrow> session \<Rightarrow> session" where
  "goToPage N s =
     (if currentPage s = delayedPage s then s
      else
        let delay = stepDelay s;
            s1 = (if currentPage s > delayedPage s then s\<lparr>delayedPage := delayedPage s + 1\<rparr>
                  else if currentPage s < delayedPage s then s\<lparr>delayedPage := delayedPage s - 1\<rparr>
                  else s);
            s2 = updateUI N s1
        in if currentPage s2 \<noteq> delayedPage s2 then s2\<lparr>animationTimeout := Some delay\<rparr>
           else s2)"

definition updateDelayedPage :: "nat \<Rightarrow> session \<Rightarrow> session" where
  "updateDelayedPage N s = goToPage N (s\<lparr>animationTimeout := None\<rparr>)"

definition clampPage :: "nat \<Rightarrow> int \<Rightarrow> int" where
  "clampPage N page = max 0 (min (int N - 1) page)"

definition setPage :: "nat \<Rightarrow> int \<Rightarrow> session \<Rightarrow> session" where
  "setPage N page s =
     updateUI N (updateDelayedPage N (s\<lparr>currentPage := clampPage N page\<rparr>))"

definition previousPage :: "nat \<Rightarrow> session \<Rightarrow> session" where
  "previousPage N s = setPage N (currentPage s - 1) s"

definition nextPage :: "nat \<Rightarrow> session \<Rightarrow> session" where
  "nextPage N s = setPage N (currentPage s + 1) s"

text \<open>
  The pending timer fires: it is no longer pending, and \<open>goToPage\<close> runs. With no timer
  pending nothing happens.
\<close>

definition timerFires :: "nat \<Rightarrow> session \<Rightarrow> session" where
  "timerFires N s =
     (if animationTimeout s = None then s else goToPage N (s\<lparr>animationTimeout := None\<rparr>))"

text \<open>
  The catch-up run to completion, no other command coming in between: the timer fires
  until none is pending. \<open>catchUpSteps\<close> lists, for each firing, the delay the timer
  waited and the session after the step; \<open>catchUp\<close> is the session at the end.
\<close>

function catchUpSteps :: "nat \<Rightarrow> session \<Rightarrow> (nat \<times> session) list" where
  "catchUpSteps N s =
     (if animationTimeout s = None then []
      else (the (animationTimeout s), timerFires N s) # catchUpSteps N (timerFires N s))"
  by pat_completeness auto
termination
  by (relation "measure (\<lambda>(N, s). 2 * nat \<bar>currentPage s - delayedPage s\<bar> +
        (if animationTimeout s = None then 0 else 1))")
     (auto simp: timerFires_def goToPage_def updateUI_def Let_def)

declare catchUpSteps.simps [simp del]

function catchUp :: "nat \<Rightarrow> session \<Rightarrow> session" where
  "catchUp N s = (if animationTimeout s = None then s else catchUp N (timerFires N s))"
  by pat_completeness auto
termination
  by (relation "measure (\<lambda>(N, s). 2 * nat \<bar>currentPage s - delayedPage s\<bar> +
        (if animationTimeout s = None then 0 else 1))")
     (auto simp: timerFires_def goToPage_def updateUI_def Let_def)

declare catchUp.simps [simp del]

subsection \<open>Pointer interaction (lines 458-472 and 577-614)\<close>

text \<open>A method of the page object at position \<open>k\<close> of \<open>pageObjects\<close> that writes the object.\<close>

definition onPage :: "nat \<Rightarrow> (pageObject \<Rightarrow> pageObject) \<Rightarrow> session \<Rightarrow> session" where
  "onPage k f s = s\<lparr>pageObjects := (pageObjects s)[k := f (pageObjects s ! k)]\<rparr>"

definition onPointerEnter :: "nat \<Rightarrow> session \<Rightarrow> session" where
  "onPointerEnter k s = (onPage k (setHighlighted True) s)\<lparr>body_cursor := ''pointer''\<rparr>"

definition onPointerLeave :: "nat \<Rightarrow> session \<Rightarrow> session" where
  "onPointerLeave k s = (onPage k (setHighlighted False) s)\<lparr>body_cursor := ''default''\<rparr>"

text \<open>The page's \<open>onClick\<close> (lines 468-472).\<close>

definition newPageOf :: "pageObject \<Rightarrow> int" where
  "newPageOf p = (if lastOpened p then int (index p) else int (index p) + 1)"

definition pageOnClick :: "nat \<Rightarrow> nat \<Rightarrow> session \<Rightarrow> session" where
  "pageOnClick N k s =
     (let newPage = newPageOf (pageObjects s ! k)
      in onPage k (setHighlighted False) (setPage N newPage s))"

text \<open>The canvas's click listener (lines 577-581).\<close>

definition onClick :: "nat \<Rightarrow> session \<Rightarrow> session" where
  "onClick N s = (case hoveredObject s of None \<Rightarrow> s | Some k \<Rightarrow> pageOnClick N k s)"

text \<open>\<open>pageObjects.find(page => page.index === pageIndex)\<close>: the first match, by position.\<close>

fun findPage :: "nat \<Rightarrow> pageObject list \<Rightarrow> nat \<Rightarrow> nat option" where
  "findPage pageIndex [] k = None"
| "findPage pageIndex (p # ps) k =
     (if index p = pageIndex then Some k else findPage pageIndex ps (k + 1))"

text \<open>
  \<open>checkIntersection\<close>. The raycaster is three.js's; \<open>hit\<close> is what it finds: the page
  index in the name of the first mesh the ray meets, or \<open>None\<close> when it meets no page.
\<close>

definition checkIntersection :: "nat option \<Rightarrow> session \<Rightarrow> session" where
  "checkIntersection hit s =
     (let intersectedPage =
            (case hit of None \<Rightarrow> None
             | Some pageIndex \<Rightarrow> findPage pageIndex (pageObjects s) 0)
      in if hoveredObject s \<noteq> intersectedPage
         then
           let s1 = (case hoveredObject s of None \<Rightarrow> s | Some k \<Rightarrow> onPointerLeave k s);
               s2 = s1\<lparr>hoveredObject := intersectedPage\<rparr>
           in (case hoveredObject s2 of None \<Rightarrow> s2 | Some k \<Rightarrow> onPointerEnter k s2)
         else s)"

subsection \<open>The animation loop (lines 479-502)\<close>

text \<open>The fourth argument of \<open>page.update\<close> on line 490.\<close>

definition bookClosedArg :: "nat \<Rightarrow> session \<Rightarrow> bool" where
  "bookClosedArg N s = (delayedPage s = 0 \<or> delayedPage s = int N)"

text \<open>
  \<open>pageObjects.forEach(page => page.update(...))\<close>. \<open>clock k\<close> gives the two readings of
  \<open>Date.now()\<close> that the update of the page at position \<open>k\<close> makes.
\<close>

fun updatePages ::
  "real \<Rightarrow> int \<Rightarrow> bool \<Rightarrow> (nat \<Rightarrow> int \<times> int) \<Rightarrow> nat \<Rightarrow> pageObject list \<Rightarrow> pageObject list" where
  "updatePages delta dp bc clock k [] = []"
| "updatePages delta dp bc clock k (p # ps) =
     update delta dp (dp > int (index p)) bc (fst (clock k)) (snd (clock k)) p #
     updatePages delta dp bc clock (k + 1) ps"

definition animate :: "nat \<Rightarrow> real \<Rightarrow> (nat \<Rightarrow> int \<times> int) \<Rightarrow> nat option \<Rightarrow> session \<Rightarrow> session" where
  "animate N delta clock hit s =
     checkIntersection hit
       (s\<lparr>pageObjects :=
            updatePages delta (delayedPage s) (bookClosedArg N s) clock 0 (pageObjects s)\<rparr>)"

subsection \<open>Start-up and the events of a session (lines 104-180)\<close>

text \<open>
  \<open>init\<close>: the variables at their initial values, one page object per entry of the book,
  the first frame, then \<open>updateUI\<close>.
\<close>

definition startSession :: "nat \<Rightarrow> session" where
  "startSession N =
     \<lparr>currentPage = 0, delayedPage = 0, animationTimeout = None,
      pageObjects = map createPage [0..<N], hoveredObject = None,
      pageCounter = [], prevBtn_disabled = False, nextBtn_disabled = False,
      body_cursor = []\<rparr>"

definition init :: "nat \<Rightarrow> real \<Rightarrow> (nat \<Rightarrow> int \<times> int) \<Rightarrow> nat option \<Rightarrow> session" where
  "init N delta clock hit = updateUI N (animate N delta clock hit (startSession N))"

text \<open>
  What can happen after \<open>init\<close>: a frame, a click on the canvas, a click on one of the two
  buttons, the pending timer firing, and a call of \<open>setPage\<close> with any page number.
\<close>

datatype event =
    Frame real "nat \<Rightarrow> int \<times> int" "nat option"
  | CanvasClick
  | PrevClick
  | NextClick
  | TimerFires
  | SetPage int

fun handle :: "nat \<Rightarrow> event \<Rightarrow> session \<Rightarrow> session" where
  "handle N (Frame delta clock hit) s = animate N delta clock hit s"
| "handle N CanvasClick s = onClick N s"
| "handle N PrevClick s = previousPage N s"
| "handle N NextClick s = nextPage N s"
| "handle N TimerFires s = timerFires N s"
| "handle N (SetPage page) s = setPage N page s"

fun run :: "nat \<Rightarrow> event list \<Rightarrow> session \<Rightarrow> session" where
  "run N [] s = s"
| "run N (ev # evs) s = run N evs (handle N ev s)"

section \<open>The specification's envelope, and the range of the cursor\<close>


text \<open>Both page numbers of the cursor lie in \<open>[0, N - 1]\<close>.\<close>

definition cursorInRange :: "nat \<Rightarrow> session \<Rightarrow> bool" where
  "cursorInRange N s \<longleftrightarrow>
     0 \<le> currentPage s \<and> currentPage s \<le> int N - 1 \<and>
     0 \<le> delayedPage s \<and> delayedPage s \<le> int N - 1"

section \<open>Bones: creation and the loop of the update\<close>

lemma length_createBones:
  "length (createBones i bs) = length bs + (PAGE_SEGMENTS + 1 - i)"
proof (induction i bs rule: createBones.induct)
  case (1 i bs)
  show ?case
  proof (cases "i \<le> PAGE_SEGMENTS")
    case True
    with "1.IH" show ?thesis by (subst createBones.simps) simp
  next
    case False
    then show ?thesis by (subst createBones.simps) simp
  qed
qed

lemma length_bones_createPage: "length (bones (createPage idx)) = PAGE_SEGMENTS + 1"
  by (simp add: createPage_def length_createBones)

lemma length_updateBones: "length (updateBones delta bc tt target i bs) = length bs"
proof (induction delta bc tt target i bs rule: updateBones.induct)
  case (1 delta bc tt target i bs)
  show ?case
  proof (cases "i < length bs")
    case True
    with "1.IH" show ?thesis by (subst updateBones.simps) simp
  next
    case False
    then show ?thesis by (subst updateBones.simps) simp
  qed
qed

text \<open>The loop visits every bone from \<open>i\<close> on exactly once, and no other.\<close>

lemma nth_updateBones:
  "k < length bs \<Longrightarrow> updateBones delta bc tt target i bs ! k =
     (if i \<le> k then updateBone delta bc k (length bs) tt target (bs ! k) else bs ! k)"
proof (induction delta bc tt target i bs rule: updateBones.induct)
  case (1 delta bc tt target i bs)
  show ?case
  proof (cases "i < length bs")
    case True
    let ?bs' = "bs[i := updateBone delta bc i (length bs) tt target (bs ! i)]"
    have u: "updateBones delta bc tt target i bs = updateBones delta bc tt target (i + 1) ?bs'"
      using True by (subst updateBones.simps) simp
    have "updateBones delta bc tt target (i + 1) ?bs' ! k =
        (if i + 1 \<le> k then updateBone delta bc k (length ?bs') tt target (?bs' ! k) else ?bs' ! k)"
      using "1.IH" [OF True] "1.prems" by simp
    with u True "1.prems" show ?thesis
      by (cases "i = k") (auto simp: nth_list_update)
  next
    case False
    with "1.prems" show ?thesis by (subst updateBones.simps) simp
  qed
qed

lemma length_bones_update:
  "length (bones (update delta page opened bc now1 now2 p)) = length (bones p)"
  by (simp add: update_def Let_def length_updateBones)

lemma index_update: "index (update delta page opened bc now1 now2 p) = index p"
  by (simp add: update_def Let_def)

text \<open>
  What \<open>update\<close> does to bone \<open>k\<close>: one easing step towards the two targets, with the
  turning time taken from \<open>turnedAt\<close> as the edge detection of lines 403-406 leaves it.
\<close>

lemma nth_bones_update:
  "k < length (bones p) \<Longrightarrow>
   bones (update delta page opened bc now1 now2 p) ! k =
     updateBone delta bc k (length (bones p))
       (turningTime now2 (if lastOpened p \<noteq> opened then now1 else turnedAt p))
       (targetRotation opened bc (index p)) (bones p ! k)"
  by (simp add: update_def Let_def nth_updateBones)

lemma boneLengths_updatePages:
  "map (\<lambda>p. length (bones p)) (updatePages delta dp bc clock k ps) =
   map (\<lambda>p. length (bones p)) ps"
  by (induction ps arbitrary: k) (simp_all add: length_bones_update)

section \<open>The cursor: one step, and the catch-up run to completion\<close>

lemma clampPage_idem: "clampPage N (clampPage N p) = clampPage N p"
  by (simp add: clampPage_def)

lemma setPage_current: "currentPage (setPage N p s) = clampPage N p"
  by (simp add: setPage_def updateUI_def updateDelayedPage_def goToPage_def Let_def)

lemma setPage_delayed:
  "delayedPage (setPage N p s) =
     (if clampPage N p = delayedPage s then delayedPage s
      else if clampPage N p > delayedPage s then delayedPage s + 1 else delayedPage s - 1)"
  by (simp add: setPage_def updateUI_def updateDelayedPage_def goToPage_def Let_def)

lemma setPage_timeout:
  "animationTimeout (setPage N p s) =
     (if clampPage N p = delayedPage (setPage N p s) then None
      else Some (if \<bar>clampPage N p - delayedPage s\<bar> > 2 then 50 else 150))"
  by (simp add: setPage_def updateUI_def updateDelayedPage_def goToPage_def Let_def
      stepDelay_def)

lemma timerFires_current: "currentPage (timerFires N s) = currentPage s"
  by (simp add: timerFires_def goToPage_def updateUI_def Let_def)

lemma timerFires_delayed:
  "animationTimeout s \<noteq> None \<Longrightarrow> delayedPage (timerFires N s) =
     (if currentPage s = delayedPage s then delayedPage s
      else if currentPage s > delayedPage s then delayedPage s + 1 else delayedPage s - 1)"
  by (simp add: timerFires_def goToPage_def updateUI_def Let_def del: not_None_eq)

lemma timerFires_timeout:
  "animationTimeout s \<noteq> None \<Longrightarrow> animationTimeout (timerFires N s) =
     (if currentPage s = delayedPage (timerFires N s) then None else Some (stepDelay s))"
  by (simp add: timerFires_def goToPage_def updateUI_def Let_def stepDelay_def
      del: not_None_eq)

lemma timerFires_idle: "animationTimeout s = None \<Longrightarrow> timerFires N s = s"
  by (simp add: timerFires_def)

lemma upto_toward_up: "(d::int) < c \<Longrightarrow> [d + 1..c] = (d + 1) # [d + 1 + 1..c]"
  by (subst upto_rec1) simp_all

lemma upto_toward_down: "(c::int) < d \<Longrightarrow> rev [c..d - 1] = (d - 1) # rev [c..d - 1 - 1]"
  by (subst upto_rec2) simp_all

lemma catchUpSteps_unfold:
  "animationTimeout s \<noteq> None \<Longrightarrow>
   catchUpSteps N s =
     (the (animationTimeout s), timerFires N s) # catchUpSteps N (timerFires N s)"
  by (subst catchUpSteps.simps) (simp del: not_None_eq)

lemma catchUpSteps_idle: "animationTimeout s = None \<Longrightarrow> catchUpSteps N s = []"
  by (subst catchUpSteps.simps) simp

text \<open>
  A timer is pending exactly when the delayed page has not reached the current page:
  every call of \<open>goToPage\<close> that starts with no timer pending ends in such a session.
  From there the delayed page walks to the current page one integer at a time.
\<close>

lemma catchUpSteps_delayed:
  "(animationTimeout s = None \<longleftrightarrow> currentPage s = delayedPage s) \<Longrightarrow>
   map (\<lambda>(d, s'). delayedPage s') (catchUpSteps N s) =
     (if delayedPage s \<le> currentPage s then [delayedPage s + 1..currentPage s]
      else rev [currentPage s..delayedPage s - 1])"
proof (induction N s rule: catchUpSteps.induct)
  case (1 N s)
  show ?case
  proof (cases "animationTimeout s = None")
    case True
    with "1.prems" show ?thesis by (simp add: catchUpSteps_idle)
  next
    case False
    with "1.prems" have ne: "currentPage s \<noteq> delayedPage s" by simp
    let ?s' = "timerFires N s"
    have c': "currentPage ?s' = currentPage s" by (rule timerFires_current)
    have d': "delayedPage ?s' =
        (if currentPage s > delayedPage s then delayedPage s + 1 else delayedPage s - 1)"
      using False ne by (simp add: timerFires_delayed)
    have t': "animationTimeout ?s' = None \<longleftrightarrow> currentPage ?s' = delayedPage ?s'"
      using False by (simp add: timerFires_timeout c')
    have IH: "map (\<lambda>(d, s'). delayedPage s') (catchUpSteps N ?s') =
       (if delayedPage ?s' \<le> currentPage ?s' then [delayedPage ?s' + 1..currentPage ?s']
        else rev [currentPage ?s'..delayedPage ?s' - 1])"
      using "1.IH" [OF False t'] .
    note unfold = catchUpSteps_unfold [OF False, of N]
    show ?thesis
    proof (cases "currentPage s > delayedPage s")
      case True
      then show ?thesis
        using IH c' d' unfold upto_toward_up [of "delayedPage s" "currentPage s"] by simp
    next
      case False
      with ne have lt: "currentPage s < delayedPage s" by simp
      then show ?thesis
        using IH c' d' unfold upto_toward_down [of "currentPage s" "delayedPage s"] by simp
    qed
  qed
qed

lemma catchUp_final:
  "(animationTimeout s = None \<longleftrightarrow> currentPage s = delayedPage s) \<Longrightarrow>
   delayedPage (catchUp N s) = currentPage s \<and> currentPage (catchUp N s) = currentPage s \<and>
   animationTimeout (catchUp N s) = None"
proof (induction N s rule: catchUp.induct)
  case (1 N s)
  show ?case
  proof (cases "animationTimeout s = None")
    case True
    with "1.prems" show ?thesis by (simp add: catchUp.simps)
  next
    case False
    let ?s' = "timerFires N s"
    have c': "currentPage ?s' = currentPage s" by (rule timerFires_current)
    have t': "animationTimeout ?s' = None \<longleftrightarrow> currentPage ?s' = delayedPage ?s'"
      using False by (simp add: timerFires_timeout c')
    have "catchUp N s = catchUp N ?s'"
      using False by (subst catchUp.simps) (simp del: not_None_eq)
    with "1.IH" [OF False t'] c' show ?thesis by simp
  qed
qed

text \<open>\<open>catchUp\<close> is where \<open>catchUpSteps\<close> ends.\<close>

lemma catchUp_last:
  "catchUp N s = (if catchUpSteps N s = [] then s else snd (last (catchUpSteps N s)))"
proof (induction N s rule: catchUp.induct)
  case (1 N s)
  show ?case
  proof (cases "animationTimeout s = None")
    case True
    then show ?thesis by (simp add: catchUp.simps catchUpSteps_idle)
  next
    case False
    have u1: "catchUp N s = catchUp N (timerFires N s)"
      using False by (subst catchUp.simps) (simp del: not_None_eq)
    show ?thesis using "1.IH" [OF False] u1 catchUpSteps_unfold [OF False, of N] by simp
  qed
qed

lemma setPage_pending:
  "animationTimeout (setPage N p s) = None \<longleftrightarrow>
   currentPage (setPage N p s) = delayedPage (setPage N p s)"
  by (simp add: setPage_timeout setPage_current)

lemma updateDelayedPage_step:
  "currentPage s \<noteq> delayedPage s \<Longrightarrow>
   currentPage (updateDelayedPage N s) = currentPage s \<and>
   delayedPage (updateDelayedPage N s) =
     (if delayedPage s < currentPage s then delayedPage s + 1 else delayedPage s - 1) \<and>
   \<bar>currentPage s - delayedPage (updateDelayedPage N s)\<bar> =
     \<bar>currentPage s - delayedPage s\<bar> - 1 \<and>
   animationTimeout (updateDelayedPage N s) =
     (if currentPage s = delayedPage (updateDelayedPage N s) then None
      else Some (if \<bar>currentPage s - delayedPage s\<bar> > 2 then 50 else 150))"
  by (simp add: updateDelayedPage_def goToPage_def updateUI_def Let_def stepDelay_def)

lemma timerFires_pending:
  "animationTimeout s \<noteq> None \<Longrightarrow> timerFires N s = updateDelayedPage N s"
  by (simp add: timerFires_def updateDelayedPage_def del: not_None_eq)

lemma startSession_cursor:
  "currentPage (startSession N) = 0" "delayedPage (startSession N) = 0"
  "animationTimeout (startSession N) = None"
  by (simp_all add: startSession_def)

lemma pageCounter_setPage:
  "pageCounter (setPage N p s) =
     ''Page '' @ numberToString (clampPage N p) @ '' of '' @ numberToString (int N - 1)"
  by (simp add: setPage_def updateUI_def updateDelayedPage_def goToPage_def Let_def)

lemma stepDelay_eq:
  "stepDelay s = (if \<bar>currentPage s - delayedPage s\<bar> > 2 then 50 else 150)"
  by (simp add: stepDelay_def)

text \<open>
  Scenario A: a book of 13 pages, \<open>setPage(5)\<close> with both page numbers at 0. The session
  after each of the five steps is computed in turn.
\<close>

lemma scenario_A:
  assumes c0: "currentPage s = 0" and d0: "delayedPage s = 0"
  shows "pageCounter (setPage 13 5 s) = ''Page 5 of 12'' \<and>
    currentPage (setPage 13 5 s) = 5 \<and>
    delayedPage (setPage 13 5 s) = 1 \<and>
    animationTimeout (setPage 13 5 s) = Some 50 \<and>
    map (\<lambda>(d, s'). (d, delayedPage s', animationTimeout s')) (catchUpSteps 13 (setPage 13 5 s)) =
      [(50, 2, Some 50), (50, 3, Some 50), (50, 4, Some 150), (150, 5, None)] \<and>
    map fst (catchUpSteps 13 (setPage 13 5 s)) = [50, 50, 50, 150]"
proof -
  define s1 where "s1 = setPage 13 5 s"
  define s2 where "s2 = timerFires 13 s1"
  define s3 where "s3 = timerFires 13 s2"
  define s4 where "s4 = timerFires 13 s3"
  define s5 where "s5 = timerFires 13 s4"
  have cl: "clampPage 13 5 = 5" by (simp add: clampPage_def)
  have ui: "pageCounter s1 = ''Page 5 of 12''"
    by (simp add: s1_def pageCounter_setPage cl numberToString_def digits.simps digitChar_def)
  have f1: "currentPage s1 = 5" "delayedPage s1 = 1" "animationTimeout s1 = Some 50"
    by (simp_all add: s1_def setPage_current setPage_delayed setPage_timeout cl d0)
  have f2: "currentPage s2 = 5" "delayedPage s2 = 2" "animationTimeout s2 = Some 50"
    by (simp_all add: s2_def timerFires_current timerFires_delayed timerFires_timeout
        stepDelay_eq f1)
  have f3: "currentPage s3 = 5" "delayedPage s3 = 3" "animationTimeout s3 = Some 50"
    by (simp_all add: s3_def timerFires_current timerFires_delayed timerFires_timeout
        stepDelay_eq f2)
  have f4: "currentPage s4 = 5" "delayedPage s4 = 4" "animationTimeout s4 = Some 150"
    by (simp_all add: s4_def timerFires_current timerFires_delayed timerFires_timeout
        stepDelay_eq f3)
  have f5: "currentPage s5 = 5" "delayedPage s5 = 5" "animationTimeout s5 = None"
    by (simp_all add: s5_def timerFires_current timerFires_delayed timerFires_timeout
        stepDelay_eq f4)
  have steps: "catchUpSteps 13 s1 = [(50, s2), (50, s3), (50, s4), (150, s5)]"
    by (simp add: catchUpSteps_unfold [of s1] catchUpSteps_unfold [of s2]
        catchUpSteps_unfold [of s3] catchUpSteps_unfold [of s4] catchUpSteps_idle [of s5]
        f1 f2 f3 f4 f5 s2_def [symmetric] s3_def [symmetric] s4_def [symmetric]
        s5_def [symmetric])
  show ?thesis
    using ui f1 f2 f3 f4 f5 unfolding s1_def [symmetric] steps by simp
qed

section \<open>Every operation keeps the bones and the range of the cursor\<close>

lemma map_list_update_same:
  "(\<And>x. g (f x) = g x) \<Longrightarrow> map g (xs[k := f (xs ! k)]) = map g xs"
  by (cases "k < length xs") (simp_all add: map_update list_update_same_conv list_update_beyond)

lemma boneLengths_onPage_setHighlighted:
  "map (\<lambda>p. length (bones p)) (pageObjects (onPage k (setHighlighted v) s)) =
   map (\<lambda>p. length (bones p)) (pageObjects s)"
  by (simp add: onPage_def setHighlighted_def map_list_update_same)

lemma pageObjects_updateUI: "pageObjects (updateUI N s) = pageObjects s"
  by (simp add: updateUI_def)

lemma pageObjects_timerFires: "pageObjects (timerFires N s) = pageObjects s"
  by (simp add: timerFires_def goToPage_def updateUI_def Let_def)

lemma pageObjects_setPage: "pageObjects (setPage N p s) = pageObjects s"
  by (simp add: setPage_def updateDelayedPage_def goToPage_def updateUI_def Let_def)

lemma boneLengths_onPointerEnter:
  "map (\<lambda>p. length (bones p)) (pageObjects (onPointerEnter k s)) =
   map (\<lambda>p. length (bones p)) (pageObjects s)"
  by (simp add: onPointerEnter_def boneLengths_onPage_setHighlighted)

lemma boneLengths_onPointerLeave:
  "map (\<lambda>p. length (bones p)) (pageObjects (onPointerLeave k s)) =
   map (\<lambda>p. length (bones p)) (pageObjects s)"
  by (simp add: onPointerLeave_def boneLengths_onPage_setHighlighted)

lemma boneLengths_checkIntersection:
  "map (\<lambda>p. length (bones p)) (pageObjects (checkIntersection hit s)) =
   map (\<lambda>p. length (bones p)) (pageObjects s)"
proof -
  have leave: "map (\<lambda>p. length (bones p))
      (pageObjects (case x of None \<Rightarrow> s | Some k \<Rightarrow> onPointerLeave k s)) =
      map (\<lambda>p. length (bones p)) (pageObjects s)" for x
    by (simp add: boneLengths_onPointerLeave split: option.splits)
  have enter: "map (\<lambda>p. length (bones p))
      (pageObjects (case x of None \<Rightarrow> s2 | Some k \<Rightarrow> onPointerEnter k s2)) =
      map (\<lambda>p. length (bones p)) (pageObjects s2)" for x s2
    by (simp add: boneLengths_onPointerEnter split: option.splits)
  show ?thesis
    unfolding checkIntersection_def Let_def by (simp add: enter leave)
qed

lemma boneLengths_animate:
  "map (\<lambda>p. length (bones p)) (pageObjects (animate N delta clock hit s)) =
   map (\<lambda>p. length (bones p)) (pageObjects s)"
  by (simp add: animate_def boneLengths_checkIntersection boneLengths_updatePages)

lemma boneLengths_onClick:
  "map (\<lambda>p. length (bones p)) (pageObjects (onClick N s)) =
   map (\<lambda>p. length (bones p)) (pageObjects s)"
  by (simp add: onClick_def pageOnClick_def Let_def boneLengths_onPage_setHighlighted
      pageObjects_setPage split: option.splits)

lemma boneLengths_handle:
  "map (\<lambda>p. length (bones p)) (pageObjects (handle N ev s)) =
   map (\<lambda>p. length (bones p)) (pageObjects s)"
  by (cases ev)
     (simp_all add: boneLengths_animate boneLengths_onClick previousPage_def nextPage_def
        pageObjects_setPage pageObjects_timerFires)

lemma boneLengths_run:
  "map (\<lambda>p. length (bones p)) (pageObjects (run N evs s)) =
   map (\<lambda>p. length (bones p)) (pageObjects s)"
  by (induction evs arbitrary: s) (simp_all add: boneLengths_handle)

lemma boneLengths_init:
  "map (\<lambda>p. length (bones p)) (pageObjects (init N delta clock hit)) =
   replicate N (PAGE_SEGMENTS + 1)"
  by (simp add: init_def pageObjects_updateUI boneLengths_animate startSession_def comp_def
      length_bones_createPage map_replicate_const)

lemma cursor_onPage:
  "currentPage (onPage k f s) = currentPage s" "delayedPage (onPage k f s) = delayedPage s"
  by (simp_all add: onPage_def)

lemma cursor_checkIntersection:
  "currentPage (checkIntersection hit s) = currentPage s"
  "delayedPage (checkIntersection hit s) = delayedPage s"
  by (simp_all add: checkIntersection_def Let_def onPointerEnter_def onPointerLeave_def
      cursor_onPage split: option.splits)

lemma cursor_animate:
  "currentPage (animate N delta clock hit s) = currentPage s"
  "delayedPage (animate N delta clock hit s) = delayedPage s"
  by (simp_all add: animate_def cursor_checkIntersection)

lemma cursorInRange_setPage:
  "1 \<le> N \<Longrightarrow> cursorInRange N s \<Longrightarrow> cursorInRange N (setPage N p s)"
  by (auto simp: cursorInRange_def setPage_current setPage_delayed clampPage_def)

lemma cursorInRange_timerFires:
  "cursorInRange N s \<Longrightarrow> cursorInRange N (timerFires N s)"
proof (cases "animationTimeout s = None")
  case True
  assume "cursorInRange N s"
  with True show ?thesis by (simp add: timerFires_idle)
next
  case False
  assume "cursorInRange N s"
  with False show ?thesis
    by (auto simp: cursorInRange_def timerFires_current timerFires_delayed simp del: not_None_eq)
qed

lemma cursorInRange_handle:
  "1 \<le> N \<Longrightarrow> cursorInRange N s \<Longrightarrow> cursorInRange N (handle N ev s)"
proof (cases ev)
  case (Frame delta clock hit)
  assume "cursorInRange N s"
  then show ?thesis using Frame by (simp add: cursorInRange_def cursor_animate)
next
  case CanvasClick
  assume a: "1 \<le> N" "cursorInRange N s"
  show ?thesis
  proof (cases "hoveredObject s")
    case None
    with a CanvasClick show ?thesis by (simp add: onClick_def)
  next
    case (Some k)
    have "cursorInRange N (setPage N (newPageOf (pageObjects s ! k)) s)"
      using a by (rule cursorInRange_setPage)
    then show ?thesis using CanvasClick Some
      by (simp add: onClick_def pageOnClick_def cursorInRange_def cursor_onPage)
  qed
qed (simp_all add: cursorInRange_setPage cursorInRange_timerFires previousPage_def nextPage_def)

lemma cursorInRange_run:
  "1 \<le> N \<Longrightarrow> cursorInRange N s \<Longrightarrow> cursorInRange N (run N evs s)"
  by (induction evs arbitrary: s) (simp_all add: cursorInRange_handle)

lemma cursorInRange_init: "1 \<le> N \<Longrightarrow> cursorInRange N (init N delta clock hit)"
  by (simp add: cursorInRange_def init_def updateUI_def cursor_animate startSession_cursor)

section \<open>Doubles: exact values, signs and bounds of the rounding\<close>

















section \<open>Bounds on \<open>\<pi>\<close> and the sine at \<open>Math.PI\<close> and at its half\<close>









section \<open>The turning envelope\<close>




section \<open>The claims\<close>

subsection \<open>C1: the turning envelope\<close>




subsection \<open>C2: the curve terms of the y rotation\<close>

text \<open>
  C2, as the specification words it: for every bone index the per-frame y-rotation
  target is \<open>0.18 \<sqdot> insideCurve \<sqdot> targetRotation - 0.05 \<sqdot> outsideCurve \<sqdot> targetRotation +
  0.09 \<sqdot> turningCurve \<sqdot> targetRotation\<close>. On a frame on which \<open>bookClosed\<close> is true, and
  the first frame of every session is one, lines 431-439 replace that value: for bone 1
  of 31, with turning time 0 and \<open>targetRotation = \<pi>/2\<close>, the target is 0, where the
  formula gives \<open>0.18 \<sqdot> sin(0.45) \<sqdot> \<pi>/2\<close>, which is positive; the bone then stays
  where it is instead of moving towards the curve.
\<close>

theorem rotation_target_formula_counterexample:
  "bookClosedArg 13 (startSession 13) \<and>
   targetRotation False True 1 = pi / 2 \<and>
   targetRotationY True 1 31 0 (pi / 2) = 0 \<and>
   0 < 0.18 * (if (1::nat) < 8 then sin (0.2 * real 1 + 0.25) else 0) * (pi / 2) -
       0.05 * (if (1::nat) \<ge> 8 then cos (0.3 * real 1 + 0.09) else 0) * (pi / 2) +
       0.09 * (sin (real 1 * pi / real 31) * 0) * (pi / 2) \<and>
   targetRotationY True 1 31 0 (pi / 2) \<noteq> rotationAngle 1 31 0 (pi / 2) \<and>
   rotation_y (bones (update 1 0 False True 0 0 (createPage 1)) ! 1) =
     rotation_y (bones (createPage 1) ! 1) +
       (0 - rotation_y (bones (createPage 1) ! 1)) * EASING_FACTOR * 1"
proof -
  have closed: "bookClosedArg 13 (startSession 13)"
    by (simp add: bookClosedArg_def startSession_cursor)
  have tr: "targetRotation False True 1 = pi / 2" by (simp add: targetRotation_def)
  have ty: "targetRotationY True 1 31 0 (pi / 2) = 0" by (simp add: targetRotationY_def)
  have "0 < sin (0.45 :: real)"
    using pi_ge_two by (intro sin_gt_zero) simp_all
  then have s: "0 < 0.18 * sin (0.45 :: real) * (pi / 2)" by simp
  have ra: "rotationAngle 1 31 0 (pi / 2) = 0.18 * sin (0.45 :: real) * (pi / 2)"
    by (simp add: rotationAngle_def insideCurveIntensity_def outsideCurveIntensity_def
        turningIntensity_def INSIDE_CURVE_STRENGTH_def)
  have l: "1 < length (bones (createPage 1))"
    by (simp add: length_bones_createPage PAGE_SEGMENTS_def)
  have up: "rotation_y (bones (update 1 0 False True 0 0 (createPage 1)) ! 1) =
      rotation_y (bones (createPage 1) ! 1) +
        (0 - rotation_y (bones (createPage 1) ! 1)) * EASING_FACTOR * 1"
    using l by (simp add: nth_bones_update updateBone_def targetRotationY_def)
  have fm: "0 < 0.18 * (if (1::nat) < 8 then sin (0.2 * real 1 + 0.25) else 0) * (pi / 2) -
      0.05 * (if (1::nat) \<ge> 8 then cos (0.3 * real 1 + 0.09) else 0) * (pi / 2) +
      0.09 * (sin (real 1 * pi / real 31) * 0) * (pi / 2)"
    using s by simp
  have ne: "targetRotationY True 1 31 0 (pi / 2) \<noteq> rotationAngle 1 31 0 (pi / 2)"
    using s unfolding ty ra by linarith
  show ?thesis by (intro conjI closed tr ty fm ne up)
qed

text \<open>
  C2, amended: for every bone index \<open>i\<close>, the y-rotation target that lines 420-427
  compute is \<open>0.18 \<sqdot> insideCurve \<sqdot> targetRotation - 0.05 \<sqdot> outsideCurve \<sqdot> targetRotation +
  0.09 \<sqdot> turningCurve \<sqdot> targetRotation\<close>, with \<open>insideCurve = sin(0.2 i + 0.25)\<close> only
  for \<open>i < 8\<close> and \<open>outsideCurve = cos(0.3 i + 0.09)\<close> only for \<open>i \<ge> 8\<close>; bone 8 gets
  the outside term and not the inside term. On every frame on which \<open>bookClosed\<close> is
  false, this is the target that the bone is eased towards.
\<close>

theorem rotation_target_formula:
  "rotationAngle i n tt target =
     0.18 * (if i < 8 then sin (0.2 * real i + 0.25) else 0) * target -
     0.05 * (if i \<ge> 8 then cos (0.3 * real i + 0.09) else 0) * target +
     0.09 * (sin (real i * pi / real n) * tt) * target \<and>
   (\<not> bc \<longrightarrow> targetRotationY bc i n tt target = rotationAngle i n tt target) \<and>
   (\<not> bc \<and> k < length (bones p) \<longrightarrow>
      rotation_y (bones (update delta page opened bc now1 now2 p) ! k) =
        rotation_y (bones p ! k) +
        (rotationAngle k (length (bones p))
           (turningTime now2 (if lastOpened p \<noteq> opened then now1 else turnedAt p))
           (targetRotation opened bc (index p)) - rotation_y (bones p ! k)) *
          EASING_FACTOR * delta) \<and>
   insideCurveIntensity 8 = 0 \<and>
   outsideCurveIntensity 8 = cos (0.3 * 8 + 0.09) \<and>
   insideCurveIntensity 7 = sin (0.2 * 7 + 0.25) \<and>
   outsideCurveIntensity 7 = 0 \<and>
   rotationAngle 8 n tt target =
     - (0.05 * cos (0.3 * 8 + 0.09) * target) + 0.09 * (sin (8 * pi / real n) * tt) * target"
proof -
  have formula: "rotationAngle i n tt target =
      0.18 * (if i < 8 then sin (0.2 * real i + 0.25) else 0) * target -
      0.05 * (if i \<ge> 8 then cos (0.3 * real i + 0.09) else 0) * target +
      0.09 * (sin (real i * pi / real n) * tt) * target" for i
    by (simp add: rotationAngle_def insideCurveIntensity_def outsideCurveIntensity_def
        turningIntensity_def INSIDE_CURVE_STRENGTH_def OUTSIDE_CURVE_STRENGTH_def
        TURNING_CURVE_STRENGTH_def mult.commute)
  have open_book: "\<not> bc \<longrightarrow> targetRotationY bc i n tt target = rotationAngle i n tt target"
    by (simp add: targetRotationY_def)
  have eased: "\<not> bc \<and> k < length (bones p) \<longrightarrow>
      rotation_y (bones (update delta page opened bc now1 now2 p) ! k) =
        rotation_y (bones p ! k) +
        (rotationAngle k (length (bones p))
           (turningTime now2 (if lastOpened p \<noteq> opened then now1 else turnedAt p))
           (targetRotation opened bc (index p)) - rotation_y (bones p ! k)) *
          EASING_FACTOR * delta"
    by (simp add: nth_bones_update updateBone_def targetRotationY_def)
  have at8: "insideCurveIntensity 8 = 0" "outsideCurveIntensity 8 = cos (0.3 * 8 + 0.09)"
    "insideCurveIntensity 7 = sin (0.2 * 7 + 0.25)" "outsideCurveIntensity 7 = 0"
    by (simp_all add: insideCurveIntensity_def outsideCurveIntensity_def)
  have bone8: "rotationAngle 8 n tt target =
      - (0.05 * cos (0.3 * 8 + 0.09) * target) + 0.09 * (sin (8 * pi / real n) * tt) * target"
    using formula [of 8] by simp
  show ?thesis
    by (intro conjI formula open_book eased at8 bone8)
qed

theorem rotation_target_formula_witness:
  "\<not> False \<and>
   targetRotationY False 8 31 1 (pi / 2) =
     - (0.05 * cos (0.3 * 8 + 0.09) * (pi / 2)) + 0.09 * (sin (8 * pi / 31) * 1) * (pi / 2) \<and>
   (0::nat) < length (bones (createPage 0)) \<and>
   rotation_y (bones (update 1 0 False False 0 0 (createPage 0)) ! 0) =
     rotation_y (bones (createPage 0) ! 0) +
     (rotationAngle 0 (length (bones (createPage 0)))
        (turningTime 0 (if lastOpened (createPage 0) \<noteq> False then 0 else turnedAt (createPage 0)))
        (targetRotation False False (index (createPage 0))) -
      rotation_y (bones (createPage 0) ! 0)) * EASING_FACTOR * 1"
proof -
  have l: "0 < length (bones (createPage 0))" by (simp add: length_bones_createPage)
  note T = rotation_target_formula [of 8 31 1 "pi / 2" False 0 "createPage 0" 1 0 False 0 0]
  from T have a: "targetRotationY False 8 31 1 (pi / 2) = rotationAngle 8 31 1 (pi / 2)"
    by blast
  from T have b: "rotationAngle 8 31 1 (pi / 2) =
      - (0.05 * cos (0.3 * 8 + 0.09) * (pi / 2)) + 0.09 * (sin (8 * pi / real 31) * 1) * (pi / 2)"
    by blast
  from a b have c: "targetRotationY False 8 31 1 (pi / 2) =
      - (0.05 * cos (0.3 * 8 + 0.09) * (pi / 2)) + 0.09 * (sin (8 * pi / 31) * 1) * (pi / 2)"
    by simp
  from T l have d: "rotation_y (bones (update 1 0 False False 0 0 (createPage 0)) ! 0) =
      rotation_y (bones (createPage 0) ! 0) +
      (rotationAngle 0 (length (bones (createPage 0)))
         (turningTime 0 (if lastOpened (createPage 0) \<noteq> False then 0 else turnedAt (createPage 0)))
         (targetRotation False False (index (createPage 0))) -
       rotation_y (bones (createPage 0) ! 0)) * EASING_FACTOR * 1"
    by blast
  from c d l show ?thesis by blast
qed

subsection \<open>C3: the override when the book is closed\<close>

text \<open>
  C3: on a frame on which \<open>bookClosed\<close> is true, bone 0's y-rotation target is
  \<open>targetRotation\<close> (which then is \<open>\<plusminus>\<pi>/2\<close>, without the stagger) and its x-rotation
  target is 0; every bone \<open>i \<ge> 1\<close> has both targets 0, whatever the curve terms are. The
  update eases every bone of the page towards exactly these targets.
\<close>

theorem bookClosed_override:
  "targetRotationY True 0 n tt (targetRotation opened True idx) = targetRotation opened True idx \<and>
   targetRotation opened True idx = (if opened then - pi / 2 else pi / 2) \<and>
   targetRotationX True 0 n tt target = 0 \<and>
   (1 \<le> i \<longrightarrow> targetRotationY True i n tt target = 0 \<and> targetRotationX True i n tt target = 0) \<and>
   (k < length (bones p) \<longrightarrow>
      rotation_y (bones (update delta page opened True now1 now2 p) ! k) =
        rotation_y (bones p ! k) +
        ((if k = 0 then targetRotation opened True (index p) else 0) - rotation_y (bones p ! k)) *
          EASING_FACTOR * delta \<and>
      rotation_x (bones (update delta page opened True now1 now2 p) ! k) =
        rotation_x (bones p ! k) + (0 - rotation_x (bones p ! k)) * EASING_FACTOR_FOLD * delta)"
  by (simp add: nth_bones_update updateBone_def targetRotationY_def targetRotationX_def
      targetRotation_def)

theorem bookClosed_override_witness:
  "(1::nat) \<le> 5 \<and> targetRotationY True 5 31 1 (pi / 2) = 0 \<and>
   targetRotationX True 5 31 1 (pi / 2) = 0 \<and>
   targetRotationY True 0 31 1 (targetRotation False True 0) = pi / 2 \<and>
   (0::nat) < length (bones (createPage 0)) \<and>
   rotation_y (bones (update 1 0 False True 0 0 (createPage 0)) ! 0) =
     rotation_y (bones (createPage 0) ! 0) +
       (pi / 2 - rotation_y (bones (createPage 0) ! 0)) * EASING_FACTOR * 1"
proof -
  have l: "0 < length (bones (createPage 0))" by (simp add: length_bones_createPage)
  have t: "targetRotation False True 0 = pi / 2" by (simp add: targetRotation_def)
  have i: "index (createPage 0) = 0" by (simp add: createPage_def)
  note T = bookClosed_override [of 31 1 False 0 "pi / 2" 5 0 "createPage 0" 1 0 0 0]
  from T have a: "targetRotationY True 5 31 1 (pi / 2) = 0"
    "targetRotationX True 5 31 1 (pi / 2) = 0"
    by simp_all
  from T have "targetRotationY True 0 31 1 (targetRotation False True 0) =
      targetRotation False True 0"
    by blast
  with t have b: "targetRotationY True 0 31 1 (targetRotation False True 0) = pi / 2"
    by (simp only:)
  from T l have "rotation_y (bones (update 1 0 False True 0 0 (createPage 0)) ! 0) =
      rotation_y (bones (createPage 0) ! 0) +
      ((if (0::nat) = 0 then targetRotation False True (index (createPage 0)) else 0) -
        rotation_y (bones (createPage 0) ! 0)) * EASING_FACTOR * 1"
    by blast
  then have c: "rotation_y (bones (update 1 0 False True 0 0 (createPage 0)) ! 0) =
      rotation_y (bones (createPage 0) ! 0) +
      (pi / 2 - rotation_y (bones (createPage 0) ! 0)) * EASING_FACTOR * 1"
    by (simp only: i t if_True refl)
  have "(1::nat) \<le> 5" by simp
  with a b c l show ?thesis by blast
qed

subsection \<open>C4: the delayed page converges to the current page\<close>

text \<open>
  C4: from any session, after \<open>setPage(p)\<close> and the catch-up run to completion with no
  further command, \<open>delayedPage\<close> equals \<open>currentPage\<close> (the clamped \<open>p\<close>) and no timer is
  pending. The values \<open>delayedPage\<close> takes, one per step (the step inside \<open>setPage\<close>
  first, then one per firing of the timer), are the integers after its starting value up
  to the target in ascending order, or down to the target in descending order: it moves
  by exactly 1 per step and visits every integer in between exactly once.
\<close>

theorem cursor_convergence:
  "currentPage (catchUp N (setPage N p s)) = clampPage N p \<and>
   delayedPage (catchUp N (setPage N p s)) = clampPage N p \<and>
   animationTimeout (catchUp N (setPage N p s)) = None \<and>
   (clampPage N p = delayedPage s \<longrightarrow>
      delayedPage (setPage N p s) = delayedPage s \<and> catchUpSteps N (setPage N p s) = []) \<and>
   (delayedPage s < clampPage N p \<longrightarrow>
      delayedPage (setPage N p s) #
        map (\<lambda>(d, s'). delayedPage s') (catchUpSteps N (setPage N p s)) =
      [delayedPage s + 1..clampPage N p]) \<and>
   (clampPage N p < delayedPage s \<longrightarrow>
      delayedPage (setPage N p s) #
        map (\<lambda>(d, s'). delayedPage s') (catchUpSteps N (setPage N p s)) =
      rev [clampPage N p..delayedPage s - 1])"
proof -
  let ?s1 = "setPage N p s"
  let ?c = "clampPage N p"
  note pend = setPage_pending [of N p s]
  have fin: "delayedPage (catchUp N ?s1) = ?c \<and> currentPage (catchUp N ?s1) = ?c \<and>
      animationTimeout (catchUp N ?s1) = None"
    using catchUp_final [OF pend] by (simp add: setPage_current)
  have path: "map (\<lambda>(d, s'). delayedPage s') (catchUpSteps N ?s1) =
      (if delayedPage ?s1 \<le> ?c then [delayedPage ?s1 + 1..?c]
       else rev [?c..delayedPage ?s1 - 1])"
    using catchUpSteps_delayed [OF pend] by (simp add: setPage_current)
  have eq: "?c = delayedPage s \<longrightarrow>
      delayedPage ?s1 = delayedPage s \<and> catchUpSteps N ?s1 = []"
    by (simp add: setPage_delayed setPage_timeout catchUpSteps_idle)
  have up: "delayedPage s < ?c \<longrightarrow>
      delayedPage ?s1 # map (\<lambda>(d, s'). delayedPage s') (catchUpSteps N ?s1) =
      [delayedPage s + 1..?c]"
    using path upto_toward_up [of "delayedPage s" ?c] by (simp add: setPage_delayed)
  have down: "?c < delayedPage s \<longrightarrow>
      delayedPage ?s1 # map (\<lambda>(d, s'). delayedPage s') (catchUpSteps N ?s1) =
      rev [?c..delayedPage s - 1]"
    using path upto_toward_down [of ?c "delayedPage s"] by (simp add: setPage_delayed)
  show ?thesis using fin eq up down by simp
qed

theorem cursor_convergence_witness:
  "delayedPage (startSession 13) < clampPage 13 5 \<and>
   delayedPage (setPage 13 5 (startSession 13)) #
     map (\<lambda>(d, s'). delayedPage s') (catchUpSteps 13 (setPage 13 5 (startSession 13))) =
     [1, 2, 3, 4, 5] \<and>
   delayedPage (catchUp 13 (setPage 13 5 (startSession 13))) = 5 \<and>
   clampPage 13 2 < delayedPage ((startSession 13)\<lparr>delayedPage := 6\<rparr>) \<and>
   delayedPage (setPage 13 2 ((startSession 13)\<lparr>delayedPage := 6\<rparr>)) #
     map (\<lambda>(d, s'). delayedPage s')
       (catchUpSteps 13 (setPage 13 2 ((startSession 13)\<lparr>delayedPage := 6\<rparr>))) =
     [5, 4, 3, 2] \<and>
   clampPage 13 0 = delayedPage (startSession 13) \<and>
   catchUpSteps 13 (setPage 13 0 (startSession 13)) = []"
proof -
  have c: "clampPage 13 5 = 5" "clampPage 13 2 = 2" "clampPage 13 0 = 0"
    by (simp_all add: clampPage_def)
  have u: "[1..5::int] = [1, 2, 3, 4, 5]" "rev [2..5::int] = [5, 4, 3, 2]"
    by (simp_all add: upto_rec1)
  show ?thesis
    using cursor_convergence [of 13 5 "startSession 13"]
      cursor_convergence [of 13 2 "(startSession 13)\<lparr>delayedPage := 6\<rparr>"]
      cursor_convergence [of 13 0 "startSession 13"]
    by (simp add: c u startSession_cursor)
qed

subsection \<open>C5: the delay of a step, and scenario A\<close>

text \<open>
  C5, as the specification words it: in scenario A (a book of 13 pages, \<open>setPage(5)\<close>
  from \<open>currentPage = delayedPage = 0\<close>) \<open>delayedPage\<close> steps 0, 1, 2, 3, 4, 5 with
  delays of 50ms for the first three steps and of 150ms for the last two. The code sets
  four timers, not five: the step from 0 to 1 runs inside \<open>setPage\<close> with no delay, the
  timers wait 50, 50, 50 and 150ms (300ms in all), so only the step from 4 to 5 comes
  after 150ms, and that step sets no timer.
\<close>

theorem catchup_step_delays_counterexample:
  "delayedPage (startSession 13) = 0 \<and>
   delayedPage (setPage 13 5 (startSession 13)) = 1 \<and>
   map fst (catchUpSteps 13 (setPage 13 5 (startSession 13))) = [50, 50, 50, 150] \<and>
   map fst (catchUpSteps 13 (setPage 13 5 (startSession 13))) \<noteq> [50, 50, 50, 150, 150] \<and>
   sum_list (map fst (catchUpSteps 13 (setPage 13 5 (startSession 13)))) = 300 \<and>
   map (\<lambda>(d, s'). delayedPage s') (catchUpSteps 13 (setPage 13 5 (startSession 13))) =
     [2, 3, 4, 5] \<and>
   animationTimeout (snd (last (catchUpSteps 13 (setPage 13 5 (startSession 13))))) = None"
proof -
  note sc = scenario_A [of "startSession 13", OF startSession_cursor(1) startSession_cursor(2)]
  from sc have d1: "delayedPage (setPage 13 5 (startSession 13)) = 1" by blast
  from sc have tm: "map fst (catchUpSteps 13 (setPage 13 5 (startSession 13))) = [50, 50, 50, 150]"
    by blast
  from sc have tr: "map (\<lambda>(d, s'). (d, delayedPage s', animationTimeout s'))
      (catchUpSteps 13 (setPage 13 5 (startSession 13))) =
      [(50, 2, Some 50), (50, 3, Some 50), (50, 4, Some 150), (150, 5, None)]"
    by blast
  have "map (\<lambda>(d, s'). delayedPage s') (catchUpSteps 13 (setPage 13 5 (startSession 13))) =
      map (\<lambda>(d, p, t). p) (map (\<lambda>(d, s'). (d, delayedPage s', animationTimeout s'))
        (catchUpSteps 13 (setPage 13 5 (startSession 13))))"
    by (simp add: case_prod_beta)
  then have ps: "map (\<lambda>(d, s'). delayedPage s')
      (catchUpSteps 13 (setPage 13 5 (startSession 13))) = [2, 3, 4, 5]"
    by (simp only: tr) simp
  have ne: "catchUpSteps 13 (setPage 13 5 (startSession 13)) \<noteq> []"
    using tm by auto
  have "animationTimeout (snd (last (catchUpSteps 13 (setPage 13 5 (startSession 13))))) =
      (\<lambda>(d, p, t). t) (last (map (\<lambda>(d, s'). (d, delayedPage s', animationTimeout s'))
        (catchUpSteps 13 (setPage 13 5 (startSession 13)))))"
    using ne by (simp add: last_map case_prod_beta)
  then have fin: "animationTimeout
      (snd (last (catchUpSteps 13 (setPage 13 5 (startSession 13))))) = None"
    by (simp only: tr) simp
  show ?thesis using d1 tm ps fin by (simp add: startSession_cursor)
qed

text \<open>
  C5, amended: a catch-up step (\<open>goToPage\<close> entered with no timer pending, from
  \<open>setPage\<close> or from the timer) moves \<open>delayedPage\<close> one unit towards \<open>currentPage\<close> and,
  unless that reaches \<open>currentPage\<close>, schedules the next step with a delay of 50ms when
  the distance before the move exceeds 2 and of 150ms otherwise. For a book of 13 pages,
  \<open>setPage(5)\<close> from \<open>currentPage = delayedPage = 0\<close> makes the counter read
  "Page 5 of 12" at once and \<open>delayedPage\<close> steps 0, 1, 2, 3, 4, 5: the first step runs
  inside \<open>setPage\<close> with no delay, the steps to 2, 3 and 4 follow after 50ms each and the
  step to 5 after 150ms; the timers are 50, 50, 50, 150, and the last step sets none.
\<close>

theorem catchup_step_delays:
  "(currentPage s \<noteq> delayedPage s \<longrightarrow>
      currentPage (updateDelayedPage N s) = currentPage s \<and>
      delayedPage (updateDelayedPage N s) =
        (if delayedPage s < currentPage s then delayedPage s + 1 else delayedPage s - 1) \<and>
      \<bar>currentPage s - delayedPage (updateDelayedPage N s)\<bar> =
        \<bar>currentPage s - delayedPage s\<bar> - 1 \<and>
      animationTimeout (updateDelayedPage N s) =
        (if currentPage s = delayedPage (updateDelayedPage N s) then None
         else Some (if \<bar>currentPage s - delayedPage s\<bar> > 2 then 50 else 150))) \<and>
   (animationTimeout s \<noteq> None \<longrightarrow> timerFires N s = updateDelayedPage N s) \<and>
   (currentPage s0 = 0 \<and> delayedPage s0 = 0 \<longrightarrow>
      pageCounter (setPage 13 5 s0) = ''Page 5 of 12'' \<and>
      currentPage (setPage 13 5 s0) = 5 \<and>
      delayedPage (setPage 13 5 s0) = 1 \<and>
      animationTimeout (setPage 13 5 s0) = Some 50 \<and>
      map (\<lambda>(d, s'). (d, delayedPage s', animationTimeout s'))
        (catchUpSteps 13 (setPage 13 5 s0)) =
        [(50, 2, Some 50), (50, 3, Some 50), (50, 4, Some 150), (150, 5, None)] \<and>
      map fst (catchUpSteps 13 (setPage 13 5 s0)) = [50, 50, 50, 150])"
proof (intro conjI impI)
  assume "currentPage s \<noteq> delayedPage s"
  note st = updateDelayedPage_step [OF this, of N]
  from st show "currentPage (updateDelayedPage N s) = currentPage s" by blast
  from st show "delayedPage (updateDelayedPage N s) =
      (if delayedPage s < currentPage s then delayedPage s + 1 else delayedPage s - 1)"
    by blast
  from st show "\<bar>currentPage s - delayedPage (updateDelayedPage N s)\<bar> =
      \<bar>currentPage s - delayedPage s\<bar> - 1"
    by blast
  from st show "animationTimeout (updateDelayedPage N s) =
      (if currentPage s = delayedPage (updateDelayedPage N s) then None
       else Some (if \<bar>currentPage s - delayedPage s\<bar> > 2 then 50 else 150))"
    by blast
next
  assume "animationTimeout s \<noteq> None"
  then show "timerFires N s = updateDelayedPage N s" by (rule timerFires_pending)
next
  assume "currentPage s0 = 0 \<and> delayedPage s0 = 0"
  then have z: "currentPage s0 = 0" "delayedPage s0 = 0" by simp_all
  note sc = scenario_A [OF z]
  from sc show "pageCounter (setPage 13 5 s0) = ''Page 5 of 12''" by blast
  from sc show "currentPage (setPage 13 5 s0) = 5" by blast
  from sc show "delayedPage (setPage 13 5 s0) = 1" by blast
  from sc show "animationTimeout (setPage 13 5 s0) = Some 50" by blast
  from sc show "map (\<lambda>(d, s'). (d, delayedPage s', animationTimeout s'))
      (catchUpSteps 13 (setPage 13 5 s0)) =
      [(50, 2, Some 50), (50, 3, Some 50), (50, 4, Some 150), (150, 5, None)]"
    by blast
  from sc show "map fst (catchUpSteps 13 (setPage 13 5 s0)) = [50, 50, 50, 150]"
    by blast
qed

theorem catchup_step_delays_witness:
  "currentPage ((startSession 13)\<lparr>currentPage := 5\<rparr>) \<noteq>
     delayedPage ((startSession 13)\<lparr>currentPage := 5\<rparr>) \<and>
   delayedPage (updateDelayedPage 13 ((startSession 13)\<lparr>currentPage := 5\<rparr>)) = 1 \<and>
   animationTimeout (updateDelayedPage 13 ((startSession 13)\<lparr>currentPage := 5\<rparr>)) = Some 50 \<and>
   animationTimeout ((startSession 13)\<lparr>currentPage := 5, delayedPage := 3,
       animationTimeout := Some 50\<rparr>) \<noteq> None \<and>
   timerFires 13 ((startSession 13)\<lparr>currentPage := 5, delayedPage := 3,
       animationTimeout := Some 50\<rparr>) =
     updateDelayedPage 13 ((startSession 13)\<lparr>currentPage := 5, delayedPage := 3,
       animationTimeout := Some 50\<rparr>) \<and>
   animationTimeout (updateDelayedPage 13 ((startSession 13)\<lparr>currentPage := 5, delayedPage := 3,
       animationTimeout := Some 50\<rparr>)) = Some 150 \<and>
   currentPage (startSession 13) = 0 \<and> delayedPage (startSession 13) = 0 \<and>
   pageCounter (setPage 13 5 (startSession 13)) = ''Page 5 of 12'' \<and>
   map (\<lambda>(d, s'). (d, delayedPage s', animationTimeout s'))
     (catchUpSteps 13 (setPage 13 5 (startSession 13))) =
     [(50, 2, Some 50), (50, 3, Some 50), (50, 4, Some 150), (150, 5, None)] \<and>
   map fst (catchUpSteps 13 (setPage 13 5 (startSession 13))) = [50, 50, 50, 150]"
  using catchup_step_delays [of "(startSession 13)\<lparr>currentPage := 5\<rparr>" 13 "startSession 13"]
    catchup_step_delays [of "(startSession 13)\<lparr>currentPage := 5, delayedPage := 3,
       animationTimeout := Some 50\<rparr>" 13 "startSession 13"]
  by (simp add: startSession_cursor)

subsection \<open>C6: setPage clamps its argument\<close>

text \<open>
  C6: \<open>setPage(p)\<close> assigns the clamped \<open>p\<close> to \<open>currentPage\<close>, so a call out of range
  leaves the same session as the call with the clamped argument: from any session,
  \<open>setPage(-5)\<close> and \<open>setPage(0)\<close> give the same session, and so do \<open>setPage(N + 5)\<close> and
  \<open>setPage(N - 1)\<close>.
\<close>

theorem setPage_clamp_equivalent:
  "currentPage (setPage N p s) = clampPage N p \<and>
   setPage N p s = setPage N (clampPage N p) s \<and>
   setPage N (- 5) s = setPage N 0 s \<and>
   setPage N (int N + 5) s = setPage N (int N - 1) s"
proof -
  have "setPage N p s = setPage N (clampPage N p) s"
    by (simp add: setPage_def clampPage_idem)
  moreover have "setPage N (- 5) s = setPage N 0 s"
    by (simp add: setPage_def clampPage_def)
  moreover have "setPage N (int N + 5) s = setPage N (int N - 1) s"
    by (simp add: setPage_def clampPage_def)
  moreover have "currentPage (setPage N p s) = clampPage N p"
    by (rule setPage_current)
  ultimately show ?thesis by blast
qed

theorem setPage_clamp_equivalent_witness:
  "setPage 13 (- 5) (startSession 13) = setPage 13 0 (startSession 13) \<and>
   setPage 13 18 (startSession 13) = setPage 13 12 (startSession 13) \<and>
   currentPage (setPage 13 18 (startSession 13)) = 12 \<and>
   currentPage (setPage 13 (- 5) (startSession 13)) = 0"
  using setPage_clamp_equivalent [of 13 "- 5" "startSession 13"]
    setPage_clamp_equivalent [of 13 18 "startSession 13"]
  by (simp add: clampPage_def setPage_current)

subsection \<open>C7: a click on the hovered page\<close>

text \<open>
  C7: a click while a page is hovered runs that page's click handler, which calls
  \<open>setPage(index)\<close> when the page's \<open>lastOpened\<close> is true and \<open>setPage(index + 1)\<close> when
  it is false, and then clears the highlight; a click on the page of index 2 whose
  \<open>lastOpened\<close> is false calls \<open>setPage(3)\<close>. With no page hovered a click does nothing.
\<close>

theorem click_on_hovered_page:
  "(hoveredObject s = None \<longrightarrow> onClick N s = s) \<and>
   (hoveredObject s = Some k \<longrightarrow>
      onClick N s =
        onPage k (setHighlighted False)
          (setPage N (if lastOpened (pageObjects s ! k) then int (index (pageObjects s ! k))
                      else int (index (pageObjects s ! k)) + 1) s) \<and>
      currentPage (onClick N s) =
        clampPage N (if lastOpened (pageObjects s ! k) then int (index (pageObjects s ! k))
                     else int (index (pageObjects s ! k)) + 1)) \<and>
   (hoveredObject s = Some k \<and> index (pageObjects s ! k) = 2 \<and>
      \<not> lastOpened (pageObjects s ! k) \<longrightarrow>
      onClick N s = onPage k (setHighlighted False) (setPage N 3 s))"
  by (simp add: onClick_def pageOnClick_def newPageOf_def cursor_onPage setPage_current)

theorem click_on_hovered_page_witness:
  "hoveredObject (startSession 13) = None \<and>
   onClick 13 (startSession 13) = startSession 13 \<and>
   hoveredObject ((startSession 13)\<lparr>hoveredObject := Some 2\<rparr>) = Some 2 \<and>
   index (pageObjects ((startSession 13)\<lparr>hoveredObject := Some 2\<rparr>) ! 2) = 2 \<and>
   \<not> lastOpened (pageObjects ((startSession 13)\<lparr>hoveredObject := Some 2\<rparr>) ! 2) \<and>
   onClick 13 ((startSession 13)\<lparr>hoveredObject := Some 2\<rparr>) =
     onPage 2 (setHighlighted False) (setPage 13 3 ((startSession 13)\<lparr>hoveredObject := Some 2\<rparr>)) \<and>
   currentPage (onClick 13 ((startSession 13)\<lparr>hoveredObject := Some 2\<rparr>)) = 3"
proof -
  define s where "s = (startSession 13)\<lparr>hoveredObject := Some 2\<rparr>"
  have h: "hoveredObject s = Some 2" by (simp add: s_def)
  have "pageObjects s ! 2 = createPage 2"
    by (simp add: s_def startSession_def numeral_2_eq_2)
  then have p: "index (pageObjects s ! 2) = 2" "\<not> lastOpened (pageObjects s ! 2)"
    by (simp_all add: createPage_def)
  have c: "clampPage 13 3 = 3" by (simp add: clampPage_def)
  have n: "hoveredObject (startSession 13) = None" by (simp add: startSession_def)
  with click_on_hovered_page [of "startSession 13" 13 0]
  have idle: "onClick 13 (startSession 13) = startSession 13" by blast
  have "hoveredObject s = Some 2 \<and> index (pageObjects s ! 2) = 2 \<and>
      \<not> lastOpened (pageObjects s ! 2) \<and>
      onClick 13 s = onPage 2 (setHighlighted False) (setPage 13 3 s) \<and>
      currentPage (onClick 13 s) = 3"
  proof -
    note T = click_on_hovered_page [of s 13 2]
    from T h p have a: "onClick 13 s = onPage 2 (setHighlighted False) (setPage 13 3 s)"
      by blast
    from T h have "currentPage (onClick 13 s) =
        clampPage 13 (if lastOpened (pageObjects s ! 2) then int (index (pageObjects s ! 2))
                      else int (index (pageObjects s ! 2)) + 1)"
      by blast
    with p c have b: "currentPage (onClick 13 s) = 3" by simp
    from h p a b show ?thesis by blast
  qed
  then have "hoveredObject ((startSession 13)\<lparr>hoveredObject := Some 2\<rparr>) = Some 2 \<and>
      index (pageObjects ((startSession 13)\<lparr>hoveredObject := Some 2\<rparr>) ! 2) = 2 \<and>
      \<not> lastOpened (pageObjects ((startSession 13)\<lparr>hoveredObject := Some 2\<rparr>) ! 2) \<and>
      onClick 13 ((startSession 13)\<lparr>hoveredObject := Some 2\<rparr>) =
        onPage 2 (setHighlighted False)
          (setPage 13 3 ((startSession 13)\<lparr>hoveredObject := Some 2\<rparr>)) \<and>
      currentPage (onClick 13 ((startSession 13)\<lparr>hoveredObject := Some 2\<rparr>)) = 3"
    unfolding s_def .
  with n idle show ?thesis by blast
qed

subsection \<open>C8: the number of bones of a page never changes\<close>

text \<open>
  C8: a page is created with \<open>PAGE_SEGMENTS + 1\<close> bones, and in every session reached
  from \<open>init\<close> by any sequence of events (frames, clicks, button presses, timer firings,
  calls of \<open>setPage\<close>) there are still \<open>N\<close> pages, each with \<open>PAGE_SEGMENTS + 1\<close> bones: no
  operation adds or removes a bone.
\<close>

theorem boneAngles_length_constant:
  "length (bones (createPage idx)) = PAGE_SEGMENTS + 1 \<and>
   map (\<lambda>p. length (bones p)) (pageObjects (run N evs (init N delta clock hit))) =
     replicate N (PAGE_SEGMENTS + 1)"
  by (simp add: boneLengths_run boneLengths_init length_bones_createPage)

theorem boneAngles_length_constant_witness:
  "length (bones (createPage 0)) = 31 \<and>
   map (\<lambda>p. length (bones p))
     (pageObjects (run 13 [SetPage 5, TimerFires, Frame 1 (\<lambda>k. (0, 0)) (Some 2), CanvasClick]
        (init 13 1 (\<lambda>k. (0, 0)) None))) = replicate 13 31"
  using boneAngles_length_constant [of 0 13
      "[SetPage 5, TimerFires, Frame 1 (\<lambda>k. (0, 0)) (Some 2), CanvasClick]"
      1 "\<lambda>k. (0, 0)" None]
  by (simp add: PAGE_SEGMENTS_def)

subsection \<open>C9: the delayed page never reaches N\<close>

text \<open>
  C9: for a book with at least one page, in every session reached from \<open>init\<close> by any
  sequence of events, \<open>delayedPage\<close> lies in \<open>[0, N - 1]\<close>; it is never \<open>N\<close>, so the
  \<open>bookClosed\<close> argument of line 490, \<open>delayedPage === 0 || delayedPage === pages.length\<close>,
  is true exactly when \<open>delayedPage\<close> is 0.
\<close>

theorem delayedPage_in_range:
  "1 \<le> N \<Longrightarrow>
   0 \<le> delayedPage (run N evs (init N delta clock hit)) \<and>
   delayedPage (run N evs (init N delta clock hit)) \<le> int N - 1 \<and>
   delayedPage (run N evs (init N delta clock hit)) \<noteq> int N \<and>
   bookClosedArg N (run N evs (init N delta clock hit)) =
     (delayedPage (run N evs (init N delta clock hit)) = 0)"
proof -
  assume n: "1 \<le> N"
  have "cursorInRange N (run N evs (init N delta clock hit))"
    using n cursorInRange_init [OF n] by (rule cursorInRange_run)
  then show ?thesis by (auto simp: cursorInRange_def bookClosedArg_def)
qed

theorem delayedPage_in_range_witness:
  "(1::nat) \<le> 13 \<and>
   0 \<le> delayedPage (run 13 [SetPage 20, TimerFires, TimerFires] (init 13 1 (\<lambda>k. (0, 0)) None)) \<and>
   delayedPage (run 13 [SetPage 20, TimerFires, TimerFires] (init 13 1 (\<lambda>k. (0, 0)) None)) \<le> 12 \<and>
   delayedPage (run 13 [SetPage 20, TimerFires, TimerFires] (init 13 1 (\<lambda>k. (0, 0)) None)) = 3 \<and>
   \<not> bookClosedArg 13 (run 13 [SetPage 20, TimerFires, TimerFires] (init 13 1 (\<lambda>k. (0, 0)) None))"
proof -
  have d0: "delayedPage (init 13 1 (\<lambda>k. (0, 0)) None) = 0"
    "currentPage (init 13 1 (\<lambda>k. (0, 0)) None) = 0"
    by (simp_all add: init_def updateUI_def cursor_animate startSession_cursor)
  let ?s1 = "setPage 13 20 (init 13 1 (\<lambda>k. (0, 0)) None)"
  have f1: "currentPage ?s1 = 12" "delayedPage ?s1 = 1" "animationTimeout ?s1 = Some 50"
    by (simp_all add: setPage_current setPage_delayed setPage_timeout clampPage_def d0)
  have f2: "currentPage (timerFires 13 ?s1) = 12" "delayedPage (timerFires 13 ?s1) = 2"
    "animationTimeout (timerFires 13 ?s1) = Some 50"
    by (simp_all add: timerFires_current timerFires_delayed timerFires_timeout stepDelay_eq f1)
  have f3: "delayedPage (timerFires 13 (timerFires 13 ?s1)) = 3"
    by (simp add: timerFires_delayed f2)
  show ?thesis
    using delayedPage_in_range [of 13 "[SetPage 20, TimerFires, TimerFires]" 1 "\<lambda>k. (0, 0)" None]
    by (simp add: f3)
qed

subsection \<open>C10: the first step of the catch-up is synchronous\<close>

text \<open>
  C10: when \<open>setPage(p)\<close> is called with the clamped \<open>p\<close> different from \<open>delayedPage\<close>,
  \<open>delayedPage\<close> has moved one step towards the clamped target when \<open>setPage\<close> returns. A
  timer is pending afterwards exactly when the target is not yet reached, and the
  timer then takes the remaining steps, one fewer than the distance.
\<close>

theorem first_step_synchronous:
  "clampPage N p \<noteq> delayedPage s \<Longrightarrow>
   delayedPage (setPage N p s) =
     (if delayedPage s < clampPage N p then delayedPage s + 1 else delayedPage s - 1) \<and>
   (animationTimeout (setPage N p s) = None \<longleftrightarrow> delayedPage (setPage N p s) = clampPage N p) \<and>
   length (catchUpSteps N (setPage N p s)) = nat \<bar>clampPage N p - delayedPage s\<bar> - 1"
proof -
  assume ne: "clampPage N p \<noteq> delayedPage s"
  let ?s1 = "setPage N p s"
  have d1: "delayedPage ?s1 =
      (if delayedPage s < clampPage N p then delayedPage s + 1 else delayedPage s - 1)"
    using ne by (simp add: setPage_delayed)
  have t1: "animationTimeout ?s1 = None \<longleftrightarrow> delayedPage ?s1 = clampPage N p"
    using setPage_pending [of N p s] by (auto simp: setPage_current)
  have "length (map (\<lambda>(d, s'). delayedPage s') (catchUpSteps N ?s1)) =
      nat \<bar>clampPage N p - delayedPage s\<bar> - 1"
    using ne by (subst catchUpSteps_delayed [OF setPage_pending]) (auto simp: setPage_current d1)
  then show ?thesis using d1 t1 by simp
qed

theorem first_step_synchronous_witness:
  "clampPage 13 5 \<noteq> delayedPage (startSession 13) \<and>
   delayedPage (startSession 13) = 0 \<and>
   delayedPage (setPage 13 5 (startSession 13)) = 1 \<and>
   animationTimeout (setPage 13 5 (startSession 13)) \<noteq> None \<and>
   length (catchUpSteps 13 (setPage 13 5 (startSession 13))) = 4"
proof -
  have h: "clampPage 13 5 \<noteq> delayedPage (startSession 13)"
    by (simp add: clampPage_def startSession_def)
  show ?thesis
    using h first_step_synchronous [OF h] by (simp add: clampPage_def startSession_def)
qed

end
